theory Spec2Isabelle
  imports Complex_Main
begin

section \<open>Values exchanged with the browser and the mapping library\<close>

text \<open>
  The widget of \<^verbatim>\<open>src/app/components/GoogleMap.tsx\<close> drives three things it does not own:
  the browser's geolocation capability, the script loader behind \<^verbatim>\<open>Wrapper\<close>, and the
  map and marker objects of the mapping library. Coordinates are JavaScript numbers that the
  code only stores, compares for identity of the enclosing object, and passes on; no
  arithmetic is done on them, so they are modelled as reals.
\<close>

record LatLngLiteral =
  lat :: real
  lng :: real

text \<open>
  A \<^verbatim>\<open>{lat, lng}\<close> object is referred to by its identity: React compares the dependencies
  of an effect with \<^verbatim>\<open>Object.is\<close>, so two objects with equal coordinates are different
  dependencies. Map and marker objects are referred to by a handle, their index in the list of
  all objects ever constructed.
\<close>

type_synonym ref = nat
type_synonym handle = nat

record PositionOptions =
  enableHighAccuracy :: bool
  timeout :: nat
  maximumAge :: nat

record MapInstance =
  map_center :: LatLngLiteral
  map_zoom :: int
  mapTypeControl :: bool
  streetViewControl :: bool
  fullscreenControl :: bool

record Icon =
  url :: string
  scaledSize :: "nat \<times> nat"
  anchor :: "nat \<times> nat"

record MarkerInstance =
  marker_position :: LatLngLiteral
  marker_map :: "handle option"
  marker_title :: string
  marker_icon :: Icon

datatype call =
    NewMap handle LatLngLiteral int
  | SetCenter handle LatLngLiteral
  | SetZoom handle int
  | NewMarker handle LatLngLiteral handle string
  | SetPosition handle LatLngLiteral
  | SetMap handle "handle option"

record world =
  objs :: "ref \<Rightarrow> LatLngLiteral"
  next_ref :: ref
  maps :: "MapInstance list"
  markers :: "MarkerInstance list"
  calls :: "call list"
  geo_requests :: "PositionOptions list"
  loader_requests :: "string list"

definition alloc :: "LatLngLiteral \<Rightarrow> world \<Rightarrow> ref \<times> world" where
  "alloc v w = (next_ref w, w\<lparr>objs := (objs w)(next_ref w := v), next_ref := Suc (next_ref w)\<rparr>)"

subsection \<open>The mapping library's objects\<close>

definition new_Map :: "LatLngLiteral \<Rightarrow> int \<Rightarrow> world \<Rightarrow> handle \<times> world" where
  "new_Map c z w =
     (length (maps w),
      w\<lparr>maps := maps w @ [\<lparr>map_center = c, map_zoom = z, mapTypeControl = False,
                           streetViewControl = False, fullscreenControl = False\<rparr>],
        calls := calls w @ [NewMap (length (maps w)) c z]\<rparr>)"

definition setCenter :: "handle \<Rightarrow> LatLngLiteral \<Rightarrow> world \<Rightarrow> world" where
  "setCenter h c w =
     w\<lparr>maps := (maps w)[h := (maps w ! h)\<lparr>map_center := c\<rparr>], calls := calls w @ [SetCenter h c]\<rparr>"

definition setZoom :: "handle \<Rightarrow> int \<Rightarrow> world \<Rightarrow> world" where
  "setZoom h z w =
     w\<lparr>maps := (maps w)[h := (maps w ! h)\<lparr>map_zoom := z\<rparr>], calls := calls w @ [SetZoom h z]\<rparr>"

definition sq :: string where
  "sq = [CHR 0x27]"

definition icon_url :: string where
  "icon_url =
     ''data:image/svg+xml,%3Csvg xmlns='' @ sq @ ''http://www.w3.org/2000/svg'' @ sq @
     '' width='' @ sq @ ''24'' @ sq @ '' height='' @ sq @ ''24'' @ sq @
     '' viewBox='' @ sq @ ''0 0 24 24'' @ sq @ '' fill='' @ sq @ ''%234F46E5'' @ sq @
     ''%3E%3Cpath d='' @ sq @
     ''M12 2C8.13 2 5 5.13 5 9c0 5.25 7 13 7 13s7-7.75 7-13c0-3.87-3.13-7-7-7zm0 9.5c-1.38 0-2.5-1.12-2.5-2.5s1.12-2.5 2.5-2.5 2.5 1.12 2.5 2.5-1.12 2.5-2.5 2.5z''
     @ sq @ ''/%3E%3C/svg%3E''"

definition marker_icon_value :: Icon where
  "marker_icon_value = \<lparr>url = icon_url, scaledSize = (32, 32), anchor = (16, 32)\<rparr>"

definition new_Marker :: "LatLngLiteral \<Rightarrow> handle \<Rightarrow> string \<Rightarrow> world \<Rightarrow> handle \<times> world" where
  "new_Marker p m t w =
     (length (markers w),
      w\<lparr>markers := markers w @ [\<lparr>marker_position = p, marker_map = Some m, marker_title = t,
                                 marker_icon = marker_icon_value\<rparr>],
        calls := calls w @ [NewMarker (length (markers w)) p m t]\<rparr>)"

definition setPosition :: "handle \<Rightarrow> LatLngLiteral \<Rightarrow> world \<Rightarrow> world" where
  "setPosition k p w =
     w\<lparr>markers := (markers w)[k := (markers w ! k)\<lparr>marker_position := p\<rparr>],
       calls := calls w @ [SetPosition k p]\<rparr>"

definition setMap :: "handle \<Rightarrow> handle option \<Rightarrow> world \<Rightarrow> world" where
  "setMap k m w =
     w\<lparr>markers := (markers w)[k := (markers w ! k)\<lparr>marker_map := m\<rparr>],
       calls := calls w @ [SetMap k m]\<rparr>"

section \<open>Names and errors\<close>

text \<open>
  The values the module \<^verbatim>\<open>GoogleMap.tsx\<close> binds: the names its two import lines bring in
  and the names it declares itself. It uses the name \<^verbatim>\<open>React\<close> as a type
  (\<^verbatim>\<open>React.FC\<close>, erased when the file is compiled) and as a value
  (\<^verbatim>\<open>React.Children.map\<close>, \<^verbatim>\<open>React.isValidElement\<close>, \<^verbatim>\<open>React.cloneElement\<close>), and
  imports no such value, nor does the browser provide one. Evaluating a name that has no
  binding throws a \<^verbatim>\<open>ReferenceError\<close>.
\<close>

datatype error = ReferenceError string

definition module_scope :: "string list" where
  "module_scope =
     [''Wrapper'', ''Status'', ''useEffect'', ''useRef'', ''useState'',
      ''Map'', ''Marker'', ''render'', ''GoogleMap'']"

definition resolve :: "string \<Rightarrow> error + unit" where
  "resolve name = (if name \<in> set module_scope then Inr () else Inl (ReferenceError name))"

section \<open>The \<^verbatim>\<open>Marker\<close> component\<close>

text \<open>
  React semantics used below: a state hook keeps its value between renders, and a value given
  to its setter is seen by the next render only; an effect runs after the first render and
  again after every render in which one of its dependencies differs from the previous render's;
  before it runs again, and when the component unmounts, the cleanup returned by its last run
  is called, with the variables that run captured.
\<close>

record MarkerProps =
  position :: ref
  map_p :: "handle option"
  title :: "string option"

record Marker_hooks =
  marker_st :: "handle option"
  marker_deps1 :: "(handle option \<times> handle option \<times> ref \<times> string option) option"
  marker_cleanup :: "handle option"
  marker_deps2 :: "(handle option \<times> ref) option"

text \<open>
  \<open>marker_cleanup\<close> is the \<^verbatim>\<open>marker\<close> captured by the cleanup of the first effect's last
  run; before the first run there is no cleanup, which behaves as one that captured no marker.
\<close>

definition Marker_init :: Marker_hooks where
  "Marker_init = \<lparr>marker_st = None, marker_deps1 = None, marker_cleanup = None, marker_deps2 = None\<rparr>"

text \<open>\<^verbatim>\<open>title || "Your Location"\<close>: an absent title and the empty string are both falsy.\<close>

definition title_or_default :: "string option \<Rightarrow> string" where
  "title_or_default t =
     (case t of None \<Rightarrow> ''Your Location'' | Some s \<Rightarrow> if s = [] then ''Your Location'' else s)"

text \<open>The cleanup of the first effect: \<^verbatim>\<open>if (marker) marker.setMap(null)\<close>.\<close>

definition Marker_cleanup :: "handle option \<Rightarrow> world \<Rightarrow> world" where
  "Marker_cleanup marker w = (case marker of Some k \<Rightarrow> setMap k None w | None \<Rightarrow> w)"

text \<open>
  The first effect, dependencies \<^verbatim>\<open>[marker, map, position, title]\<close>. The argument \<open>marker\<close>
  is the state value this render saw.
\<close>

definition Marker_effect1 ::
  "MarkerProps \<Rightarrow> handle option \<Rightarrow> Marker_hooks \<Rightarrow> world \<Rightarrow> Marker_hooks \<times> world" where
  "Marker_effect1 p marker h w =
     (let d = (marker, map_p p, position p, title p) in
      if marker_deps1 h = Some d then (h, w)
      else
        let w1 = Marker_cleanup (marker_cleanup h) w;
            h1 = h\<lparr>marker_deps1 := Some d, marker_cleanup := marker\<rparr>
        in (case (marker, map_p p) of
              (None, Some m) \<Rightarrow>
                (let (newMarker, w2) =
                       new_Marker (objs w1 (position p)) m (title_or_default (title p)) w1
                 in (h1\<lparr>marker_st := Some newMarker\<rparr>, w2))
            | _ \<Rightarrow> (h1, w1)))"

text \<open>The second effect, dependencies \<^verbatim>\<open>[marker, position]\<close>.\<close>

definition Marker_effect2 ::
  "MarkerProps \<Rightarrow> handle option \<Rightarrow> Marker_hooks \<Rightarrow> world \<Rightarrow> Marker_hooks \<times> world" where
  "Marker_effect2 p marker h w =
     (let d = (marker, position p) in
      if marker_deps2 h = Some d then (h, w)
      else
        (h\<lparr>marker_deps2 := Some d\<rparr>,
         case marker of Some k \<Rightarrow> setPosition k (objs w (position p)) w | None \<Rightarrow> w))"

definition Marker_commit :: "MarkerProps \<Rightarrow> Marker_hooks \<Rightarrow> world \<Rightarrow> Marker_hooks \<times> world" where
  "Marker_commit p h w =
     (let marker = marker_st h;
          (h1, w1) = Marker_effect1 p marker h w
      in Marker_effect2 p marker h1 w1)"

text \<open>
  A \<^verbatim>\<open>Marker\<close> taken by itself, with the props some parent gives it: React renders it again
  as long as a commit has set new state, which is at most once, when the marker has been
  created; later renders bring new props; the unmount runs the cleanup the first effect left
  and drops the hooks.
\<close>

function Marker_settle :: "MarkerProps \<Rightarrow> Marker_hooks \<Rightarrow> world \<Rightarrow> Marker_hooks \<times> world" where
  "Marker_settle p h w =
     (case Marker_commit p h w of
        (h', w') \<Rightarrow> if marker_st h' \<noteq> marker_st h then Marker_settle p h' w' else (h', w'))"
  by pat_completeness auto
termination
proof (relation "measure (\<lambda>(p, h, w). if marker_st h = None then 1 else 0)")
  show "wf (measure (\<lambda>(p, h, w). if marker_st h = None then 1 else (0::nat)))"
    by simp
next
  fix p h w h' w'
  assume "(h', w') = Marker_commit p h w" and "marker_st h' \<noteq> marker_st h"
  then have "marker_st h = None \<and> marker_st h' \<noteq> None"
    by (auto simp: Marker_commit_def Marker_effect1_def Marker_effect2_def new_Marker_def
        Let_def split: if_splits prod.splits option.splits)
  then show "((p, h', w'), (p, h, w)) \<in>
      measure (\<lambda>(p, h, w). if marker_st h = None then 1 else (0::nat))"
    by simp
qed

declare Marker_settle.simps [simp del]

fun Marker_renders :: "MarkerProps list \<Rightarrow> Marker_hooks \<Rightarrow> world \<Rightarrow> Marker_hooks \<times> world" where
  "Marker_renders [] h w = (h, w)"
| "Marker_renders (p # ps) h w =
     (case Marker_settle p h w of (h', w') \<Rightarrow> Marker_renders ps h' w')"

definition Marker_unmount :: "Marker_hooks \<Rightarrow> world \<Rightarrow> world" where
  "Marker_unmount h w = Marker_cleanup (marker_cleanup h) w"

section \<open>The \<^verbatim>\<open>Map\<close> component\<close>

record MapProps =
  center :: ref
  zoom :: int

record Map_hooks =
  ref_current :: bool
  map_st :: "handle option"
  map_deps1 :: "(handle option \<times> ref \<times> int) option"
  map_deps2 :: "(handle option \<times> ref \<times> int) option"

text \<open>
  \<open>ref_current\<close> says that \<^verbatim>\<open>ref.current\<close> holds the \<^verbatim>\<open>div\<close>. The \<^verbatim>\<open>ref\<close> object
  in the first effect's dependencies is the same object in every render, so the dependencies
  that can differ are \<^verbatim>\<open>map\<close>, \<^verbatim>\<open>center\<close> and \<^verbatim>\<open>zoom\<close>.
\<close>

definition Map_init :: Map_hooks where
  "Map_init = \<lparr>ref_current = False, map_st = None, map_deps1 = None, map_deps2 = None\<rparr>"

definition Map_effect1 ::
  "MapProps \<Rightarrow> handle option \<Rightarrow> Map_hooks \<Rightarrow> world \<Rightarrow> Map_hooks \<times> world" where
  "Map_effect1 p mp h w =
     (let d = (mp, center p, zoom p) in
      if map_deps1 h = Some d then (h, w)
      else
        let h1 = h\<lparr>map_deps1 := Some d\<rparr>
        in if ref_current h \<and> mp = None
           then (let (newMap, w1) = new_Map (objs w (center p)) (zoom p) w
                 in (h1\<lparr>map_st := Some newMap\<rparr>, w1))
           else (h1, w))"

definition Map_effect2 ::
  "MapProps \<Rightarrow> handle option \<Rightarrow> Map_hooks \<Rightarrow> world \<Rightarrow> Map_hooks \<times> world" where
  "Map_effect2 p mp h w =
     (let d = (mp, center p, zoom p) in
      if map_deps2 h = Some d then (h, w)
      else
        (h\<lparr>map_deps2 := Some d\<rparr>,
         case mp of
           Some m \<Rightarrow> setZoom m (zoom p) (setCenter m (objs w (center p)) w)
         | None \<Rightarrow> w))"

definition Map_commit :: "MapProps \<Rightarrow> Map_hooks \<Rightarrow> world \<Rightarrow> Map_hooks \<times> world" where
  "Map_commit p h w =
     (let mp = map_st h;
          (h1, w1) = Map_effect1 p mp h w
      in Map_effect2 p mp h1 w1)"

text \<open>
  What the function \<^verbatim>\<open>Map\<close> returns: the \<^verbatim>\<open>div\<close> and its child cloned with the
  \<^verbatim>\<open>map\<close> state as the \<^verbatim>\<open>map\<close> prop. The expression starts by evaluating the name
  \<^verbatim>\<open>React\<close>; when that throws, the render throws, nothing is committed and no effect of
  \<^verbatim>\<open>Map\<close> or of its child runs.
\<close>

definition Map_render :: "handle option \<Rightarrow> MarkerProps \<Rightarrow> error + MarkerProps" where
  "Map_render mp child =
     (case resolve ''React'' of
        Inl e \<Rightarrow> Inl e
      | Inr _ \<Rightarrow> Inr (child\<lparr>map_p := mp\<rparr>))"

section \<open>The subtree \<^verbatim>\<open>Map\<close> with its \<^verbatim>\<open>Marker\<close> child\<close>

record tree =
  map_hooks :: Map_hooks
  marker_hooks :: Marker_hooks

definition tree_init :: tree where
  "tree_init = \<lparr>map_hooks = Map_init, marker_hooks = Marker_init\<rparr>"

text \<open>
  One render of the subtree and its commit: \<^verbatim>\<open>Map\<close> renders; if that succeeded, the commit
  attaches the \<^verbatim>\<open>div\<close> to the ref, then runs the effects of the child before those of the
  parent. The boolean says whether a state setter was called with a new value, that is,
  whether React renders again.
\<close>

definition MapTree_pass ::
  "MapProps \<Rightarrow> MarkerProps \<Rightarrow> tree \<Rightarrow> world \<Rightarrow> error + (tree \<times> world \<times> bool)" where
  "MapTree_pass mp kp t w =
     (let m = map_st (map_hooks t);
          k = marker_st (marker_hooks t)
      in case Map_render m kp of
           Inl e \<Rightarrow> Inl e
         | Inr child \<Rightarrow>
             (let (kh, w1) = Marker_commit child (marker_hooks t) w;
                  (mh, w2) = Map_commit mp ((map_hooks t)\<lparr>ref_current := True\<rparr>) w1
              in Inr (\<lparr>map_hooks = mh, marker_hooks = kh\<rparr>, w2,
                      map_st mh \<noteq> m \<or> marker_st kh \<noteq> k)))"

definition unset :: "tree \<Rightarrow> nat" where
  "unset t =
     (if map_st (map_hooks t) = None then 1 else 0) +
     (if marker_st (marker_hooks t) = None then 1 else 0)"

text \<open>
  React renders again as long as a commit has set new state. Each such commit fills one of the
  two state hooks, which are never emptied, so the rendering stops: \<open>unset\<close> decreases.
\<close>

function MapTree_settle ::
  "MapProps \<Rightarrow> MarkerProps \<Rightarrow> tree \<Rightarrow> world \<Rightarrow> error + (tree \<times> world)" where
  "MapTree_settle mp kp t w =
     (case MapTree_pass mp kp t w of
        Inl e \<Rightarrow> Inl e
      | Inr (t', w', again) \<Rightarrow> if again then MapTree_settle mp kp t' w' else Inr (t', w'))"
  by pat_completeness auto
termination
proof (relation "measure (\<lambda>(mp, kp, t, w). unset t)")
  show "wf (measure (\<lambda>(mp, kp, t, w). unset t))"
    by simp
next
  fix mp kp t w r t' rest w' again
  assume "MapTree_pass mp kp t w = Inr r" and "(t', rest) = r" and "(w', again) = rest"
    and again
  then have "MapTree_pass mp kp t w = Inr (t', w', True)"
    by simp
  then have "unset t' < unset t"
    by (auto simp: MapTree_pass_def Map_render_def Marker_commit_def Map_commit_def
        Marker_effect1_def Marker_effect2_def Map_effect1_def Map_effect2_def new_Map_def
        new_Marker_def unset_def Let_def split: if_splits prod.splits option.splits sum.splits)
  then show "((mp, kp, t', w'), (mp, kp, t, w)) \<in> measure (\<lambda>(mp, kp, t, w). unset t)"
    by simp
qed

declare MapTree_settle.simps [simp del]

section \<open>The \<^verbatim>\<open>GoogleMap\<close> component\<close>

record GoogleMap_hooks =
  userLocation :: "ref option"
  locationError :: "string option"
  isLoadingLocation :: bool

datatype Status = LOADING | FAILURE | SUCCESS

datatype panel = LoadingMapPanel | FailedToLoadPanel | NoPanel

text \<open>
  The function \<^verbatim>\<open>render\<close> given to \<^verbatim>\<open>Wrapper\<close>: the spinner while the library loads, the
  error panel when it failed, and \<^verbatim>\<open>null\<close> otherwise.
\<close>

fun render :: "Status \<Rightarrow> panel" where
  "render LOADING = LoadingMapPanel"
| "render FAILURE = FailedToLoadPanel"
| "render SUCCESS = NoPanel"

text \<open>
  What \<^verbatim>\<open>GoogleMap\<close> returns: the "Getting your location..." placeholder, or the map view
  with the optional warning banner, the props of \<^verbatim>\<open>Map\<close> and the props of its
  \<^verbatim>\<open>Marker\<close> child.
\<close>

datatype view = GettingLocation | MapView "string option" MapProps MarkerProps

definition defaultCenter :: LatLngLiteral where
  "defaultCenter = \<lparr>lat = 37.7749, lng = - 122.4194\<rparr>"

text \<open>
  The render function after the hooks; \<open>dc\<close> is the \<^verbatim>\<open>defaultCenter\<close> object this render
  created. An object is truthy, so \<^verbatim>\<open>userLocation || defaultCenter\<close> takes the location
  whenever one is stored; \<^verbatim>\<open>locationError && ...\<close> shows the banner for a non-empty message.
\<close>

definition GoogleMap_render :: "GoogleMap_hooks \<Rightarrow> ref \<Rightarrow> view" where
  "GoogleMap_render h dc =
     (if isLoadingLocation h then GettingLocation
      else
        let center = (case userLocation h of Some l \<Rightarrow> l | None \<Rightarrow> dc);
            zoom = (if userLocation h \<noteq> None then 15 else 10)
        in MapView
             (case locationError h of Some e \<Rightarrow> if e = [] then None else Some e | None \<Rightarrow> None)
             \<lparr>center = center, zoom = zoom\<rparr>
             \<lparr>position = center, map_p = None,
              title = Some (if userLocation h \<noteq> None then ''Your Current Location''
                            else ''Default Location'')\<rparr>)"

datatype phase = Initial | Mounted | Discarded

text \<open>
  The widget with its surroundings: its state hooks, what it rendered last, the status of
  \<^verbatim>\<open>Wrapper\<close> when that is mounted, the hooks of the \<^verbatim>\<open>Map\<close> subtree when that is
  mounted, the outside world, whether the browser and the script loader still owe an
  answer, and the error a render has thrown, if one has. The hooks are kept after the unmount,
  as the container the late callbacks refer to.
\<close>

record system =
  apiKey :: string
  phase :: phase
  hooks :: GoogleMap_hooks
  rendered :: "view option"
  wrapper :: "Status option"
  subtree :: "tree option"
  world :: world
  geo_pending :: bool
  loader_pending :: bool
  crashed :: "error option"

definition GoogleMap_init :: "string \<Rightarrow> world \<Rightarrow> system" where
  "GoogleMap_init key w =
     \<lparr>apiKey = key, phase = Initial,
      hooks = \<lparr>userLocation = None, locationError = None, isLoadingLocation = True\<rparr>,
      rendered = None, wrapper = None, subtree = None, world = w,
      geo_pending = False, loader_pending = False, crashed = None\<rparr>"

definition world_init :: world where
  "world_init =
     \<lparr>objs = (\<lambda>r. \<lparr>lat = 0, lng = 0\<rparr>), next_ref = 0, maps = [], markers = [], calls = [],
      geo_requests = [], loader_requests = []\<rparr>"

text \<open>Unmounting \<^verbatim>\<open>Wrapper\<close> and what it shows runs the cleanup the marker effect left.\<close>

definition unmount_subtree :: "system \<Rightarrow> system" where
  "unmount_subtree s =
     (case subtree s of
        None \<Rightarrow> s\<lparr>wrapper := None\<rparr>
      | Some t \<Rightarrow>
          s\<lparr>world := Marker_unmount (marker_hooks t) (world s),
            subtree := None, wrapper := None\<rparr>)"

text \<open>
  An error thrown by a render is caught by no component of this repository; React then takes
  the tree down, the widget with it.
\<close>

definition crash :: "error \<Rightarrow> system \<Rightarrow> system" where
  "crash e s = (unmount_subtree s)\<lparr>phase := Discarded, crashed := Some e\<rparr>"

text \<open>
  A render of \<^verbatim>\<open>GoogleMap\<close> and its commit. \<^verbatim>\<open>Wrapper\<close>, of the library
  \<^verbatim>\<open>@googlemaps/react-wrapper\<close>, starts the script loader with the API key when it mounts,
  shows \<^verbatim>\<open>render(status)\<close> until the status is \<^verbatim>\<open>SUCCESS\<close>, and its children from then on.
\<close>

definition GoogleMap_rerender :: "system \<Rightarrow> system" where
  "GoogleMap_rerender s =
     (let (dc, w) = alloc defaultCenter (world s);
          v = GoogleMap_render (hooks s) dc;
          s1 = s\<lparr>world := w, rendered := Some v\<rparr>
      in case v of
           GettingLocation \<Rightarrow> unmount_subtree s1
         | MapView b mp kp \<Rightarrow>
             (case wrapper s1 of
                None \<Rightarrow>
                  s1\<lparr>wrapper := Some LOADING,
                     world := w\<lparr>loader_requests := loader_requests w @ [apiKey s]\<rparr>,
                     loader_pending := True\<rparr>
              | Some st \<Rightarrow>
                  (case subtree s1 of
                     None \<Rightarrow> s1
                   | Some t \<Rightarrow>
                       (case MapTree_settle mp kp t w of
                          Inl e \<Rightarrow> crash e s1
                        | Inr (t', w') \<Rightarrow> s1\<lparr>subtree := Some t', world := w'\<rparr>))))"

text \<open>
  React's state setters: the updates one callback makes are applied together and followed by
  one render; updates dispatched to a component that is no longer mounted are dropped.
\<close>

definition setState :: "(GoogleMap_hooks \<Rightarrow> GoogleMap_hooks) \<Rightarrow> system \<Rightarrow> system" where
  "setState f s = (if phase s = Mounted then GoogleMap_rerender (s\<lparr>hooks := f (hooks s)\<rparr>) else s)"

definition geo_options :: PositionOptions where
  "geo_options = \<lparr>enableHighAccuracy = True, timeout = 10000, maximumAge = 60000\<rparr>"

text \<open>The effect with no dependencies; \<open>avail\<close> says whether \<^verbatim>\<open>navigator.geolocation\<close> exists.\<close>

definition GoogleMap_effect :: "bool \<Rightarrow> system \<Rightarrow> system" where
  "GoogleMap_effect avail s =
     (if \<not> avail
      then setState (\<lambda>h. h\<lparr>locationError := Some ''Geolocation is not supported by this browser'',
                            isLoadingLocation := False\<rparr>) s
      else s\<lparr>world := (world s)\<lparr>geo_requests := geo_requests (world s) @ [geo_options]\<rparr>,
             geo_pending := True\<rparr>)"

definition success_callback :: "real \<Rightarrow> real \<Rightarrow> system \<Rightarrow> system" where
  "success_callback latitude longitude s =
     (let (location, w) = alloc \<lparr>lat = latitude, lng = longitude\<rparr> (world s)
      in setState (\<lambda>h. h\<lparr>userLocation := Some location, isLoadingLocation := False\<rparr>)
           (s\<lparr>world := w\<rparr>))"

definition error_callback :: "string \<Rightarrow> system \<Rightarrow> system" where
  "error_callback message s =
     setState (\<lambda>h. h\<lparr>locationError := Some message, isLoadingLocation := False\<rparr>) s"

text \<open>
  The loader's answer sets the status of \<^verbatim>\<open>Wrapper\<close>, if that is still mounted; with
  \<^verbatim>\<open>SUCCESS\<close> the children mount and render until they settle, or until a render throws.
\<close>

definition Wrapper_setStatus :: "Status \<Rightarrow> system \<Rightarrow> system" where
  "Wrapper_setStatus st s =
     (if wrapper s = None then s
      else
        (case (st, rendered s) of
           (SUCCESS, Some (MapView b mp kp)) \<Rightarrow>
             (case MapTree_settle mp kp tree_init (world s) of
                Inl e \<Rightarrow> crash e (s\<lparr>wrapper := Some SUCCESS\<rparr>)
              | Inr (t', w') \<Rightarrow> s\<lparr>wrapper := Some SUCCESS, subtree := Some t', world := w'\<rparr>)
         | _ \<Rightarrow> s\<lparr>wrapper := Some st\<rparr>))"

text \<open>
  The events of a widget's life. The browser answers a position request once, with one of the
  two callbacks, and the loader settles once; an event that cannot occur in a state has no
  successor.
\<close>

datatype event =
    Mount bool
  | GeoSuccess real real
  | GeoError string
  | LoaderSuccess
  | LoaderFailure
  | Unmount

fun step :: "event \<Rightarrow> system \<Rightarrow> system option" where
  "step (Mount avail) s =
     (if phase s = Initial
      then Some (GoogleMap_effect avail (GoogleMap_rerender (s\<lparr>phase := Mounted\<rparr>)))
      else None)"
| "step (GeoSuccess latitude longitude) s =
     (if geo_pending s then Some (success_callback latitude longitude (s\<lparr>geo_pending := False\<rparr>))
      else None)"
| "step (GeoError message) s =
     (if geo_pending s then Some (error_callback message (s\<lparr>geo_pending := False\<rparr>)) else None)"
| "step LoaderSuccess s =
     (if loader_pending s then Some (Wrapper_setStatus SUCCESS (s\<lparr>loader_pending := False\<rparr>))
      else None)"
| "step LoaderFailure s =
     (if loader_pending s then Some (Wrapper_setStatus FAILURE (s\<lparr>loader_pending := False\<rparr>))
      else None)"
| "step Unmount s =
     (if phase s = Mounted then Some ((unmount_subtree s)\<lparr>phase := Discarded\<rparr>) else None)"

fun run :: "event list \<Rightarrow> system \<Rightarrow> system option" where
  "run [] s = Some s"
| "run (e # es) s = (case step e s of None \<Rightarrow> None | Some s' \<Rightarrow> run es s')"

section \<open>The page\<close>

text \<open>
  \<^verbatim>\<open>Home\<close> reads the environment variable, absent or a string, and puts either the map
  widget or the "API Key Required" panel on the page.
\<close>

datatype page = GoogleMapElement string | ApiKeyRequired

definition Home :: "string option \<Rightarrow> page" where
  "Home env =
     (let googleMapsApiKey = (case env of Some k \<Rightarrow> if k = [] then [] else k | None \<Rightarrow> [])
      in if googleMapsApiKey \<noteq> [] then GoogleMapElement googleMapsApiKey else ApiKeyRequired)"

datatype page_state = Placeholder world | Widget system

definition Home_mount :: "string option \<Rightarrow> bool \<Rightarrow> world \<Rightarrow> page_state" where
  "Home_mount env avail w =
     (case Home env of
        ApiKeyRequired \<Rightarrow> Placeholder w
      | GoogleMapElement key \<Rightarrow>
          (case step (Mount avail) (GoogleMap_init key w) of
             Some s \<Rightarrow> Widget s
           | None \<Rightarrow> Placeholder w))"

section \<open>Predicates for the proofs\<close>

text \<open>Exactly one of three conditions holds.\<close>

definition exactly_one :: "bool \<Rightarrow> bool \<Rightarrow> bool \<Rightarrow> bool" where
  "exactly_one a b c = ((a \<and> \<not> b \<and> \<not> c) \<or> (\<not> a \<and> b \<and> \<not> c) \<or> (\<not> a \<and> \<not> b \<and> c))"

definition geo_exclusive :: "GoogleMap_hooks \<Rightarrow> bool" where
  "geo_exclusive h =
     exactly_one (isLoadingLocation h) (userLocation h \<noteq> None) (locationError h \<noteq> None)"

text \<open>
  What holds of every state a widget reaches when it starts in the world \<open>w0\<close>: the three
  geolocation hooks exclude each other, \<^verbatim>\<open>Wrapper\<close> is mounted only once the location has
  settled and only while the widget is, the subtree is never mounted, and no map or marker
  has been constructed or called.
\<close>

definition app_inv :: "world \<Rightarrow> system \<Rightarrow> bool" where
  "app_inv w0 s =
     ((geo_pending s \<longrightarrow> isLoadingLocation (hooks s) \<and> phase s \<noteq> Initial) \<and>
      (isLoadingLocation (hooks s) \<longrightarrow>
         wrapper s = None \<and> userLocation (hooks s) = None \<and> locationError (hooks s) = None) \<and>
      (\<not> isLoadingLocation (hooks s) \<longrightarrow>
         (userLocation (hooks s) = None) \<noteq> (locationError (hooks s) = None)) \<and>
      (wrapper s \<noteq> None \<longrightarrow> phase s = Mounted) \<and>
      (phase s = Initial \<longrightarrow> \<not> loader_pending s \<and> isLoadingLocation (hooks s)) \<and>
      subtree s = None \<and>
      maps (world s) = maps w0 \<and> markers (world s) = markers w0 \<and> calls (world s) = calls w0)"

text \<open>
  What holds of the hooks of a \<^verbatim>\<open>Marker\<close> whenever its rendering has settled: the cleanup
  its first effect left has captured the marker the state holds, and that marker exists.
\<close>

definition marker_ok :: "Marker_hooks \<Rightarrow> world \<Rightarrow> bool" where
  "marker_ok h w =
     (marker_cleanup h = marker_st h \<and>
      (case marker_st h of None \<Rightarrow> True | Some k \<Rightarrow> k < length (markers w)))"

section \<open>The render of \<^verbatim>\<open>Map\<close> throws; a \<^verbatim>\<open>Marker\<close> by itself\<close>

lemmas api_defs = new_Map_def new_Marker_def setCenter_def setZoom_def setPosition_def setMap_def
lemmas marker_defs = Marker_commit_def Marker_effect1_def Marker_effect2_def Marker_cleanup_def
  Marker_unmount_def

lemma resolve_React: "resolve ''React'' = Inl (ReferenceError ''React'')"
  by (simp add: resolve_def module_scope_def)

lemma Map_render_throws: "Map_render mp child = Inl (ReferenceError ''React'')"
  by (simp add: Map_render_def resolve_React)

lemma MapTree_pass_throws: "MapTree_pass mp kp t w = Inl (ReferenceError ''React'')"
  by (simp add: MapTree_pass_def Map_render_throws)

lemma MapTree_settle_throws: "MapTree_settle mp kp t w = Inl (ReferenceError ''React'')"
  by (subst MapTree_settle.simps) (simp add: MapTree_pass_throws)

lemma Marker_mount:
  assumes "map_p p = Some m"
  shows "Marker_settle p Marker_init w =
     (\<lparr>marker_st = Some (length (markers w)),
       marker_deps1 = Some (Some (length (markers w)), Some m, position p, title p),
       marker_cleanup = Some (length (markers w)),
       marker_deps2 = Some (Some (length (markers w)), position p)\<rparr>,
      w\<lparr>markers := markers w @
           [\<lparr>marker_position = objs w (position p), marker_map = Some m,
             marker_title = title_or_default (title p), marker_icon = marker_icon_value\<rparr>],
        calls := calls w @
           [NewMarker (length (markers w)) (objs w (position p)) m (title_or_default (title p)),
            SetPosition (length (markers w)) (objs w (position p))]\<rparr>)"
  using assms
  apply (subst Marker_settle.simps)
  apply (simp add: marker_defs api_defs Marker_init_def Let_def)
  apply (subst Marker_settle.simps)
  apply (simp add: marker_defs api_defs Let_def)
  done

lemma Marker_settle_ok:
  assumes "marker_ok h w" and "Marker_settle p h w = (h', w')"
  shows "marker_ok h' w'"
proof (cases "marker_st h")
  case (Some k)
  with assms show ?thesis
    apply (subst (asm) Marker_settle.simps)
    apply (auto simp add: marker_ok_def marker_defs api_defs Let_def
        split: if_splits prod.splits option.splits)
    done
next
  case None
  with assms show ?thesis
    apply (subst (asm) Marker_settle.simps)
    apply (subst (asm) Marker_settle.simps)
    apply (auto simp add: marker_ok_def marker_defs api_defs Let_def
        split: if_splits prod.splits option.splits)
    done
qed

lemma Marker_renders_ok:
  assumes "marker_ok h w" and "Marker_renders ps h w = (h', w')"
  shows "marker_ok h' w'"
  using assms
proof (induction ps arbitrary: h w)
  case Nil
  then show ?case by simp
next
  case (Cons p ps)
  obtain h1 w1 where 1: "Marker_settle p h w = (h1, w1)"
    by (cases "Marker_settle p h w")
  with Cons.prems(2) have 2: "Marker_renders ps h1 w1 = (h', w')"
    by simp
  from Cons.IH [OF Marker_settle_ok [OF Cons.prems(1) 1] 2] show ?case .
qed

lemma Marker_update:
  assumes "marker_st h = Some k" and "marker_cleanup h = Some k"
    and "marker_deps1 h = Some (Some k, Some m, r, t)" and "marker_deps2 h = Some (Some k, r)"
    and "map_p p = Some m"
  shows "Marker_settle p h w =
     (h\<lparr>marker_deps1 := Some (Some k, Some m, position p, title p),
        marker_deps2 := Some (Some k, position p)\<rparr>,
      (let w1 = (if position p = r \<and> title p = t then w else setMap k None w)
       in if position p = r then w1 else setPosition k (objs w (position p)) w1))"
  using assms
  apply (subst Marker_settle.simps)
  apply (cases h)
  apply (auto simp add: marker_defs api_defs Let_def)
  done

section \<open>Every reachable state satisfies the invariant\<close>

lemmas app_defs = GoogleMap_rerender_def GoogleMap_render_def setState_def GoogleMap_effect_def
  success_callback_def error_callback_def Wrapper_setStatus_def unmount_subtree_def crash_def
  alloc_def

lemma inv_init: "app_inv w (GoogleMap_init key w)"
  by (simp add: app_inv_def GoogleMap_init_def)

lemma rerender_no_subtree:
  assumes "subtree s = None"
  shows "GoogleMap_rerender s =
     (let w = (world s)\<lparr>objs := (objs (world s))(next_ref (world s) := defaultCenter),
                         next_ref := Suc (next_ref (world s))\<rparr>;
          v = GoogleMap_render (hooks s) (next_ref (world s))
      in if isLoadingLocation (hooks s)
         then s\<lparr>world := w, rendered := Some v, wrapper := None\<rparr>
         else if wrapper s = None
         then s\<lparr>world := w\<lparr>loader_requests := loader_requests w @ [apiKey s]\<rparr>,
                 rendered := Some v, wrapper := Some LOADING, loader_pending := True\<rparr>
         else s\<lparr>world := w, rendered := Some v\<rparr>)"
  using assms
  by (auto simp add: GoogleMap_rerender_def GoogleMap_render_def unmount_subtree_def alloc_def
      Let_def split: option.splits)

lemma inv_rerender:
  assumes "app_inv w0 s" and "phase s = Mounted"
  shows "app_inv w0 (GoogleMap_rerender s)"
proof -
  from assms(1) have sub: "subtree s = None"
    by (simp add: app_inv_def)
  from assms show ?thesis
    unfolding rerender_no_subtree [OF sub] Let_def
    by (auto simp add: app_inv_def)
qed

lemma inv_Mount:
  assumes inv: "app_inv w0 s" and st: "step (Mount avail) s = Some s'"
  shows "app_inv w0 s'"
proof -
  from st have ph: "phase s = Initial"
    and s': "s' = GoogleMap_effect avail (GoogleMap_rerender (s\<lparr>phase := Mounted\<rparr>))"
    by (simp_all split: if_splits)
  let ?s1 = "GoogleMap_rerender (s\<lparr>phase := Mounted\<rparr>)"
  from inv ph have "app_inv w0 (s\<lparr>phase := Mounted\<rparr>)"
    by (auto simp add: app_inv_def)
  then have 1: "app_inv w0 ?s1"
    by (rule inv_rerender) simp
  from inv have sub: "subtree (s\<lparr>phase := Mounted\<rparr>) = None"
    by (simp add: app_inv_def)
  from inv ph have l: "isLoadingLocation (hooks s)" and np: "\<not> geo_pending s"
    by (auto simp add: app_inv_def)
  have f: "phase ?s1 = Mounted" "isLoadingLocation (hooks ?s1)" "wrapper ?s1 = None"
    "hooks ?s1 = hooks s"
    unfolding rerender_no_subtree [OF sub] Let_def using l by simp_all
  show ?thesis
  proof (cases avail)
    case True
    with 1 f show ?thesis
      by (auto simp add: s' GoogleMap_effect_def app_inv_def)
  next
    case False
    let ?s2 = "?s1\<lparr>hooks := (hooks ?s1)\<lparr>locationError :=
        Some ''Geolocation is not supported by this browser'', isLoadingLocation := False\<rparr>\<rparr>"
    from 1 f np have "app_inv w0 ?s2"
      unfolding rerender_no_subtree [OF sub] Let_def
      by (auto simp add: app_inv_def)
    from inv_rerender [OF this] f False show ?thesis
      by (simp add: s' GoogleMap_effect_def setState_def)
  qed
qed

lemma inv_GeoSuccess:
  assumes inv: "app_inv w0 s" and st: "step (GeoSuccess la lo) s = Some s'"
  shows "app_inv w0 s'"
proof -
  from st have p: "geo_pending s"
    and s': "s' = success_callback la lo (s\<lparr>geo_pending := False\<rparr>)"
    by (simp_all split: if_splits)
  let ?w = "(world s)\<lparr>objs := (objs (world s))(next_ref (world s) := \<lparr>lat = la, lng = lo\<rparr>),
      next_ref := Suc (next_ref (world s))\<rparr>"
  show ?thesis
  proof (cases "phase s = Mounted")
    case True
    let ?s2 = "s\<lparr>geo_pending := False, world := ?w,
        hooks := (hooks s)\<lparr>userLocation := Some (next_ref (world s)),
                           isLoadingLocation := False\<rparr>\<rparr>"
    from inv p True have "app_inv w0 ?s2"
      by (auto simp add: app_inv_def)
    from inv_rerender [OF this] True show ?thesis
      by (simp add: s' success_callback_def setState_def alloc_def)
  next
    case False
    with inv p show ?thesis
      by (auto simp add: s' success_callback_def setState_def alloc_def app_inv_def)
  qed
qed

lemma inv_GeoError:
  assumes inv: "app_inv w0 s" and st: "step (GeoError msg) s = Some s'"
  shows "app_inv w0 s'"
proof -
  from st have p: "geo_pending s"
    and s': "s' = error_callback msg (s\<lparr>geo_pending := False\<rparr>)"
    by (simp_all split: if_splits)
  show ?thesis
  proof (cases "phase s = Mounted")
    case True
    let ?s2 = "s\<lparr>geo_pending := False,
        hooks := (hooks s)\<lparr>locationError := Some msg, isLoadingLocation := False\<rparr>\<rparr>"
    from inv p True have "app_inv w0 ?s2"
      by (auto simp add: app_inv_def)
    from inv_rerender [OF this] True show ?thesis
      by (simp add: s' error_callback_def setState_def)
  next
    case False
    with inv p show ?thesis
      by (auto simp add: s' error_callback_def setState_def app_inv_def)
  qed
qed

lemma setStatus_no_subtree:
  assumes "subtree s = None"
  shows "Wrapper_setStatus st s =
     (if wrapper s = None then s
      else if st = SUCCESS \<and> (\<exists>b mp kp. rendered s = Some (MapView b mp kp))
      then s\<lparr>wrapper := None, phase := Discarded, crashed := Some (ReferenceError ''React'')\<rparr>
      else s\<lparr>wrapper := Some st\<rparr>)"
  using assms
  by (auto simp add: Wrapper_setStatus_def MapTree_settle_throws crash_def unmount_subtree_def
      split: Status.splits option.splits view.splits)

lemma inv_Loader:
  assumes inv: "app_inv w0 s"
    and st: "step LoaderSuccess s = Some s' \<or> step LoaderFailure s = Some s'"
  shows "app_inv w0 s'"
proof -
  from inv have sub: "subtree (s\<lparr>loader_pending := False\<rparr>) = None"
    by (simp add: app_inv_def)
  from st obtain status where "s' = Wrapper_setStatus status (s\<lparr>loader_pending := False\<rparr>)"
    by (auto split: if_splits)
  with inv show ?thesis
    unfolding setStatus_no_subtree [OF sub]
    by (auto simp add: app_inv_def)
qed

lemma inv_Unmount:
  assumes inv: "app_inv w0 s" and st: "step Unmount s = Some s'"
  shows "app_inv w0 s'"
proof -
  from inv have sub: "subtree s = None"
    by (simp add: app_inv_def)
  from st have "s' = s\<lparr>wrapper := None, phase := Discarded\<rparr>"
    by (simp add: unmount_subtree_def sub split: if_splits)
  with inv show ?thesis
    by (auto simp add: app_inv_def)
qed

lemma inv_step:
  assumes "app_inv w0 s" "step e s = Some s'"
  shows "app_inv w0 s'"
proof (cases e)
  case (Mount avail)
  with assms show ?thesis by (simp only: inv_Mount)
next
  case (GeoSuccess la lo)
  with assms show ?thesis by (simp only: inv_GeoSuccess)
next
  case (GeoError msg)
  with assms show ?thesis by (simp only: inv_GeoError)
next
  case LoaderSuccess
  with assms show ?thesis by (blast intro: inv_Loader)
next
  case LoaderFailure
  with assms show ?thesis by (blast intro: inv_Loader)
next
  case Unmount
  with assms show ?thesis by (simp only: inv_Unmount)
qed

lemma inv_run:
  assumes "app_inv w0 s" "run es s = Some s'"
  shows "app_inv w0 s'"
  using assms
proof (induction es arbitrary: s)
  case Nil
  then show ?case by simp
next
  case (Cons e es)
  from Cons.prems(2) obtain s1 where 1: "step e s = Some s1" and 2: "run es s1 = Some s'"
    by (auto split: option.splits)
  from Cons.IH [OF inv_step [OF Cons.prems(1) 1] 2] show ?case .
qed

section \<open>Reference runs and position requests\<close>

text \<open>The state after the mount, while the browser has not answered.\<close>

lemma run_mount_pending:
  "run [Mount True] (GoogleMap_init key w) =
     Some ((GoogleMap_init key w)
       \<lparr>phase := Mounted, rendered := Some GettingLocation,
        world := w\<lparr>objs := (objs w)(next_ref w := defaultCenter), next_ref := Suc (next_ref w),
                   geo_requests := geo_requests w @ [geo_options]\<rparr>,
        geo_pending := True\<rparr>)"
  by (simp add: GoogleMap_init_def app_defs Let_def)

lemma run_mount_unmount:
  "run [Mount True, Unmount] (GoogleMap_init key w) =
     Some ((GoogleMap_init key w)
       \<lparr>phase := Discarded, rendered := Some GettingLocation,
        world := w\<lparr>objs := (objs w)(next_ref w := defaultCenter), next_ref := Suc (next_ref w),
                   geo_requests := geo_requests w @ [geo_options]\<rparr>,
        geo_pending := True\<rparr>)"
  by (simp add: GoogleMap_init_def app_defs Let_def)


lemma unmount_geo_requests:
  "geo_requests (world (unmount_subtree s)) = geo_requests (world s)"
  by (simp add: unmount_subtree_def marker_defs setMap_def split: option.splits)

lemma rerender_geo_requests:
  "geo_requests (world (GoogleMap_rerender s)) = geo_requests (world s)"
  by (simp add: GoogleMap_rerender_def MapTree_settle_throws crash_def unmount_subtree_def
      marker_defs setMap_def alloc_def Let_def split: prod.splits view.splits option.splits)

lemma rerender_phase: "phase s \<noteq> Initial \<Longrightarrow> phase (GoogleMap_rerender s) \<noteq> Initial"
  by (simp add: GoogleMap_rerender_def MapTree_settle_throws crash_def unmount_subtree_def
      alloc_def Let_def split: prod.splits view.splits option.splits)

lemma step_geo_requests:
  assumes "phase s \<noteq> Initial" and "step e s = Some s'"
  shows "geo_requests (world s') = geo_requests (world s) \<and> phase s' \<noteq> Initial"
proof (cases e)
  case (Mount avail)
  with assms show ?thesis by simp
next
  case (GeoSuccess la lo)
  with assms show ?thesis
    by (auto simp add: success_callback_def setState_def alloc_def rerender_geo_requests
        rerender_phase split: if_splits)
next
  case (GeoError msg)
  with assms show ?thesis
    by (auto simp add: error_callback_def setState_def rerender_geo_requests rerender_phase
        split: if_splits)
next
  case LoaderSuccess
  with assms show ?thesis
    by (auto simp add: Wrapper_setStatus_def MapTree_settle_throws crash_def
        unmount_subtree_def marker_defs setMap_def
        split: if_splits option.splits view.splits)
next
  case LoaderFailure
  with assms show ?thesis
    by (auto simp add: Wrapper_setStatus_def split: if_splits)
next
  case Unmount
  with assms show ?thesis
    by (auto simp add: unmount_geo_requests split: if_splits)
qed

lemma run_geo_requests:
  assumes "phase s \<noteq> Initial" and "run es s = Some s'"
  shows "geo_requests (world s') = geo_requests (world s)"
  using assms
proof (induction es arbitrary: s)
  case Nil
  then show ?case by simp
next
  case (Cons e es)
  from Cons.prems(2) obtain s1 where 1: "step e s = Some s1" and 2: "run es s1 = Some s'"
    by (auto split: option.splits)
  from step_geo_requests [OF Cons.prems(1) 1] Cons.IH [OF _ 2] show ?case
    by simp
qed

section \<open>The claims\<close>

text \<open>
  C1. The view the widget derives from a settled geolocation state is a function of that state:
  whenever loading is over, \<^verbatim>\<open>GoogleMap\<close> renders the map view, with zoom 15 exactly when a
  user location is stored and zoom 10 exactly when the fallback is used, centered on the stored
  location when there is one and on the default center otherwise. In particular, after the
  browser answers with latitude \<open>la\<close> and longitude \<open>lo\<close> (such as 40.0 and -74.0), the
  center is that position, the zoom is 15 and the marker title is "Your Current Location".
\<close>

theorem view_state_derivation:
  "(\<not> isLoadingLocation h \<longrightarrow>
      (\<exists>b mp kp. GoogleMap_render h dc = MapView b mp kp \<and>
         (zoom mp = 15 \<longleftrightarrow> userLocation h \<noteq> None) \<and>
         (zoom mp = 10 \<longleftrightarrow> userLocation h = None) \<and>
         center mp = (case userLocation h of Some l \<Rightarrow> l | None \<Rightarrow> dc) \<and>
         title kp = Some (if userLocation h \<noteq> None then ''Your Current Location''
                          else ''Default Location''))) \<and>
   (\<exists>s b mp kp.
      run [Mount True, GeoSuccess la lo] (GoogleMap_init key w) = Some s \<and>
      rendered s = Some (MapView b mp kp) \<and>
      objs (world s) (center mp) = \<lparr>lat = la, lng = lo\<rparr> \<and> zoom mp = 15 \<and>
      title kp = Some ''Your Current Location'')"
proof (intro conjI impI)
  assume "\<not> isLoadingLocation h"
  then show "\<exists>b mp kp. GoogleMap_render h dc = MapView b mp kp \<and>
         (zoom mp = 15 \<longleftrightarrow> userLocation h \<noteq> None) \<and>
         (zoom mp = 10 \<longleftrightarrow> userLocation h = None) \<and>
         center mp = (case userLocation h of Some l \<Rightarrow> l | None \<Rightarrow> dc) \<and>
         title kp = Some (if userLocation h \<noteq> None then ''Your Current Location''
                          else ''Default Location'')"
    by (simp add: GoogleMap_render_def Let_def)
next
  show "\<exists>s b mp kp.
      run [Mount True, GeoSuccess la lo] (GoogleMap_init key w) = Some s \<and>
      rendered s = Some (MapView b mp kp) \<and>
      objs (world s) (center mp) = \<lparr>lat = la, lng = lo\<rparr> \<and> zoom mp = 15 \<and>
      title kp = Some ''Your Current Location''"
    by (simp add: GoogleMap_init_def app_defs Let_def)
qed

theorem view_state_derivation_witness:
  "\<not> isLoadingLocation \<lparr>userLocation = None, locationError = Some ''denied'',
                          isLoadingLocation = False\<rparr> \<and>
   (\<exists>b mp kp. GoogleMap_render \<lparr>userLocation = None, locationError = Some ''denied'',
                                 isLoadingLocation = False\<rparr> 7 = MapView b mp kp \<and>
      zoom mp = 10 \<and> center mp = 7 \<and> title kp = Some ''Default Location'') \<and>
   (\<exists>s b mp kp.
      run [Mount True, GeoSuccess 40 (- 74)] (GoogleMap_init ''k'' world_init) = Some s \<and>
      rendered s = Some (MapView b mp kp) \<and>
      objs (world s) (center mp) = \<lparr>lat = 40, lng = - 74\<rparr> \<and> zoom mp = 15 \<and>
      title kp = Some ''Your Current Location'')"
  using view_state_derivation [of "\<lparr>userLocation = None, locationError = Some ''denied'',
    isLoadingLocation = False\<rparr>" 7 40 "- 74" "''k''" world_init]
  by (auto simp del: run.simps)

text \<open>
  C2. In every state the widget reaches, exactly one of the following holds of its geolocation
  hooks: loading is true, a location is stored, an error is stored. While loading is true
  neither a location nor an error is stored; the success callback, run on the mounted widget,
  leaves a location, no error and loading false; the failure callback leaves the error
  message, no location and loading false.
\<close>

theorem geolocation_state_exclusive:
  assumes "run es (GoogleMap_init key w) = Some s"
  shows "geo_exclusive (hooks s) \<and>
         (isLoadingLocation (hooks s) \<longrightarrow>
            userLocation (hooks s) = None \<and> locationError (hooks s) = None) \<and>
         (\<forall>la lo s'. phase s = Mounted \<and> step (GeoSuccess la lo) s = Some s' \<longrightarrow>
            userLocation (hooks s') \<noteq> None \<and> locationError (hooks s') = None \<and>
            \<not> isLoadingLocation (hooks s')) \<and>
         (\<forall>msg s'. phase s = Mounted \<and> step (GeoError msg) s = Some s' \<longrightarrow>
            locationError (hooks s') = Some msg \<and> userLocation (hooks s') = None \<and>
            \<not> isLoadingLocation (hooks s'))"
proof -
  from inv_run [OF inv_init assms] have inv: "app_inv w s" .
  have hooks_rerender: "hooks (GoogleMap_rerender x) = hooks x" for x
    by (simp add: app_defs MapTree_settle_throws Let_def
        split: prod.splits view.splits option.splits)
  from inv have 1: "geo_exclusive (hooks s)"
    by (auto simp add: app_inv_def geo_exclusive_def exactly_one_def)
  from inv have 2: "isLoadingLocation (hooks s) \<longrightarrow>
      userLocation (hooks s) = None \<and> locationError (hooks s) = None"
    by (simp add: app_inv_def)
  have 3: "userLocation (hooks s') \<noteq> None \<and> locationError (hooks s') = None \<and>
      \<not> isLoadingLocation (hooks s')"
    if "phase s = Mounted \<and> step (GeoSuccess la lo) s = Some s'" for la lo s'
  proof -
    from that have p: "geo_pending s" and m: "phase s = Mounted"
      and s': "s' = success_callback la lo (s\<lparr>geo_pending := False\<rparr>)"
      by (simp_all split: if_splits)
    from inv p have "locationError (hooks s) = None"
      by (simp add: app_inv_def)
    then show ?thesis
      by (simp add: s' success_callback_def setState_def alloc_def m hooks_rerender)
  qed
  have 4: "locationError (hooks s') = Some msg \<and> userLocation (hooks s') = None \<and>
      \<not> isLoadingLocation (hooks s')"
    if "phase s = Mounted \<and> step (GeoError msg) s = Some s'" for msg s'
  proof -
    from that have p: "geo_pending s" and m: "phase s = Mounted"
      and s': "s' = error_callback msg (s\<lparr>geo_pending := False\<rparr>)"
      by (simp_all split: if_splits)
    from inv p have "userLocation (hooks s) = None"
      by (simp add: app_inv_def)
    then show ?thesis
      by (simp add: s' error_callback_def setState_def m hooks_rerender)
  qed
  from 1 2 3 4 show ?thesis by blast
qed

theorem geolocation_state_exclusive_witness:
  "\<exists>s s'. run [Mount True] (GoogleMap_init ''k'' world_init) = Some s \<and>
     phase s = Mounted \<and> step (GeoSuccess 40 (- 74)) s = Some s' \<and>
     geo_exclusive (hooks s) \<and> isLoadingLocation (hooks s) \<and>
     userLocation (hooks s) = None \<and> locationError (hooks s) = None \<and>
     userLocation (hooks s') \<noteq> None \<and> locationError (hooks s') = None \<and>
     \<not> isLoadingLocation (hooks s')"
proof -
  obtain s where r: "run [Mount True] (GoogleMap_init ''k'' world_init) = Some s"
    and s: "s = (GoogleMap_init ''k'' world_init)
       \<lparr>phase := Mounted, rendered := Some GettingLocation,
        world := world_init\<lparr>objs := (objs world_init)(next_ref world_init := defaultCenter),
                   next_ref := Suc (next_ref world_init),
                   geo_requests := geo_requests world_init @ [geo_options]\<rparr>,
        geo_pending := True\<rparr>"
    using run_mount_pending [of "''k''" world_init] by blast
  have m: "phase s = Mounted" and p: "geo_pending s" and l: "isLoadingLocation (hooks s)"
    by (simp_all add: s GoogleMap_init_def)
  from p obtain s' where st: "step (GeoSuccess 40 (- 74)) s = Some s'"
    by simp
  from geolocation_state_exclusive [OF r] m st l r show ?thesis
    by blast
qed

text \<open>
  C3. When the widget has been unmounted while the position request was outstanding, the
  success callback and the failure callback still run to their end, and neither changes the
  hooks of the discarded widget, what it rendered, its subtree, or any map or marker. The
  callbacks themselves have no guard: they call the state setters, and it is React that drops
  an update dispatched to an unmounted component (see \<open>setState\<close>).
\<close>

theorem late_callback_is_noop:
  assumes "phase s = Discarded" and "geo_pending s"
  shows "(\<exists>s'. step (GeoSuccess la lo) s = Some s' \<and>
            hooks s' = hooks s \<and> rendered s' = rendered s \<and> wrapper s' = wrapper s \<and>
            subtree s' = subtree s \<and> phase s' = Discarded \<and>
            maps (world s') = maps (world s) \<and> markers (world s') = markers (world s) \<and>
            calls (world s') = calls (world s) \<and>
            geo_requests (world s') = geo_requests (world s) \<and>
            loader_requests (world s') = loader_requests (world s)) \<and>
         step (GeoError msg) s = Some (s\<lparr>geo_pending := False\<rparr>)"
  using assms
  by (simp add: success_callback_def error_callback_def setState_def alloc_def)

theorem late_callback_is_noop_witness:
  "\<exists>s s'. run [Mount True, Unmount] (GoogleMap_init ''k'' world_init) = Some s \<and>
     phase s = Discarded \<and> geo_pending s \<and>
     step (GeoSuccess 40 (- 74)) s = Some s' \<and> hooks s' = hooks s \<and>
     isLoadingLocation (hooks s') \<and> userLocation (hooks s') = None \<and>
     step (GeoError ''User denied Geolocation'') s = Some (s\<lparr>geo_pending := False\<rparr>)"
proof -
  obtain s where r: "run [Mount True, Unmount] (GoogleMap_init ''k'' world_init) = Some s"
    and s: "s = (GoogleMap_init ''k'' world_init)
       \<lparr>phase := Discarded, rendered := Some GettingLocation,
        world := world_init\<lparr>objs := (objs world_init)(next_ref world_init := defaultCenter),
                   next_ref := Suc (next_ref world_init),
                   geo_requests := geo_requests world_init @ [geo_options]\<rparr>,
        geo_pending := True\<rparr>"
    using run_mount_unmount [of "''k''" world_init] by blast
  have d: "phase s = Discarded" and p: "geo_pending s"
    and h: "isLoadingLocation (hooks s)" "userLocation (hooks s) = None"
    by (simp_all add: s GoogleMap_init_def)
  from late_callback_is_noop [OF d p, of 40 "- 74" "''User denied Geolocation''"] r d p h
  show ?thesis
    by (metis (no_types))
qed

text \<open>
  C4. Without a geolocation capability the mount stores the error "Geolocation is not supported
  by this browser", clears the loading flag, issues no position request, and renders the map
  view on the fallback center (37.7749, -122.4194) with zoom 10 and the marker title "Default
  Location".
\<close>

theorem geolocation_unsupported:
  "\<exists>s b mp kp.
     step (Mount False) (GoogleMap_init key w) = Some s \<and>
     locationError (hooks s) = Some ''Geolocation is not supported by this browser'' \<and>
     \<not> isLoadingLocation (hooks s) \<and> userLocation (hooks s) = None \<and>
     geo_requests (world s) = geo_requests w \<and> \<not> geo_pending s \<and>
     rendered s = Some (MapView b mp kp) \<and>
     objs (world s) (center mp) = \<lparr>lat = 37.7749, lng = - 122.4194\<rparr> \<and>
     zoom mp = 10 \<and> position kp = center mp \<and> title kp = Some ''Default Location''"
  by (simp add: GoogleMap_init_def app_defs defaultCenter_def Let_def)

theorem geolocation_unsupported_witness:
  "\<exists>s b mp kp.
     step (Mount False) (GoogleMap_init ''k'' world_init) = Some s \<and>
     locationError (hooks s) = Some ''Geolocation is not supported by this browser'' \<and>
     \<not> isLoadingLocation (hooks s) \<and> geo_requests (world s) = [] \<and>
     rendered s = Some (MapView b mp kp) \<and>
     objs (world s) (center mp) = \<lparr>lat = 37.7749, lng = - 122.4194\<rparr> \<and>
     zoom mp = 10 \<and> title kp = Some ''Default Location''"
proof -
  have "geo_requests world_init = []"
    by (simp add: world_init_def)
  with geolocation_unsupported [of "''k''" world_init] show ?thesis
    by (elim exE conjE, intro exI conjI) (assumption | simp)+
qed

text \<open>
  C5. Contrary to the specification, in two ways. A \<^verbatim>\<open>Marker\<close> that has
  created its marker on a map and then receives a new position object with the same
  coordinates keeps the marker it has and constructs none, but its first effect, which lists
  \<^verbatim>\<open>position\<close> among its dependencies, runs its cleanup first: the marker is detached
  from the map by \<^verbatim>\<open>setMap(null)\<close> and nothing attaches it again, so the marker is not
  left as it was. And in the widget as a whole the first render of \<^verbatim>\<open>Map\<close> throws a
  \<^verbatim>\<open>ReferenceError\<close>, since \<^verbatim>\<open>React\<close> is not bound: the widget is taken down, and in no
  state it reaches has a map or a marker been constructed or updated.
\<close>

theorem center_update_detaches_marker:
  "(map_p p = Some m \<and> map_p p' = Some m \<and> title p' = title p \<and>
    position p' \<noteq> position p \<and> objs w (position p') = objs w (position p) \<longrightarrow>
      (\<exists>h1 w1 h2 w2.
         Marker_settle p Marker_init w = (h1, w1) \<and> Marker_settle p' h1 w1 = (h2, w2) \<and>
         marker_st h1 = Some (length (markers w)) \<and> marker_st h2 = marker_st h1 \<and>
         length (markers w2) = length (markers w1) \<and>
         marker_position (markers w2 ! length (markers w)) =
           marker_position (markers w1 ! length (markers w)) \<and>
         marker_map (markers w1 ! length (markers w)) = Some m \<and>
         marker_map (markers w2 ! length (markers w)) = None \<and>
         markers w2 \<noteq> markers w1 \<and>
         calls w2 = calls w1 @
           [SetMap (length (markers w)) None,
            SetPosition (length (markers w)) (objs w (position p))])) \<and>
   (\<exists>s. run [Mount False, LoaderSuccess] (GoogleMap_init key w0) = Some s \<and>
      crashed s = Some (ReferenceError ''React'') \<and> phase s = Discarded \<and>
      subtree s = None) \<and>
   (\<forall>es s. run es (GoogleMap_init key w0) = Some s \<longrightarrow>
      subtree s = None \<and> maps (world s) = maps w0 \<and> markers (world s) = markers w0 \<and>
      calls (world s) = calls w0)"
proof -
  have A: "\<exists>h1 w1 h2 w2.
         Marker_settle p Marker_init w = (h1, w1) \<and> Marker_settle p' h1 w1 = (h2, w2) \<and>
         marker_st h1 = Some (length (markers w)) \<and> marker_st h2 = marker_st h1 \<and>
         length (markers w2) = length (markers w1) \<and>
         marker_position (markers w2 ! length (markers w)) =
           marker_position (markers w1 ! length (markers w)) \<and>
         marker_map (markers w1 ! length (markers w)) = Some m \<and>
         marker_map (markers w2 ! length (markers w)) = None \<and>
         markers w2 \<noteq> markers w1 \<and>
         calls w2 = calls w1 @
           [SetMap (length (markers w)) None,
            SetPosition (length (markers w)) (objs w (position p))]"
    if a: "map_p p = Some m \<and> map_p p' = Some m \<and> title p' = title p \<and>
      position p' \<noteq> position p \<and> objs w (position p') = objs w (position p)"
  proof -
    let ?k = "length (markers w)"
    let ?h1 = "\<lparr>marker_st = Some ?k,
         marker_deps1 = Some (Some ?k, Some m, position p, title p),
         marker_cleanup = Some ?k,
         marker_deps2 = Some (Some ?k, position p)\<rparr>"
    let ?w1 = "w\<lparr>markers := markers w @
             [\<lparr>marker_position = objs w (position p), marker_map = Some m,
               marker_title = title_or_default (title p), marker_icon = marker_icon_value\<rparr>],
          calls := calls w @
             [NewMarker ?k (objs w (position p)) m (title_or_default (title p)),
              SetPosition ?k (objs w (position p))]\<rparr>"
    from a have 1: "Marker_settle p Marker_init w = (?h1, ?w1)"
      by (simp add: Marker_mount)
    let ?h2 = "?h1\<lparr>marker_deps1 := Some (Some ?k, Some m, position p', title p'),
              marker_deps2 := Some (Some ?k, position p')\<rparr>"
    let ?w2 = "setPosition ?k (objs ?w1 (position p')) (setMap ?k None ?w1)"
    have 2: "Marker_settle p' ?h1 ?w1 = (?h2, ?w2)"
      using a by (subst Marker_update [where k = ?k and m = m and r = "position p" and t = "title p"])
        (simp_all add: Let_def)
    have 3: "marker_st ?h1 = Some (length (markers w)) \<and> marker_st ?h2 = marker_st ?h1 \<and>
           length (markers ?w2) = length (markers ?w1) \<and>
           marker_position (markers ?w2 ! length (markers w)) =
             marker_position (markers ?w1 ! length (markers w)) \<and>
           marker_map (markers ?w1 ! length (markers w)) = Some m \<and>
           marker_map (markers ?w2 ! length (markers w)) = None \<and>
           markers ?w2 \<noteq> markers ?w1 \<and>
           calls ?w2 = calls ?w1 @
             [SetMap (length (markers w)) None,
              SetPosition (length (markers w)) (objs w (position p))]"
      using a by (simp add: api_defs)
    from 1 2 3 show ?thesis
      by blast
  qed
  have B: "\<exists>s. run [Mount False, LoaderSuccess] (GoogleMap_init key w0) = Some s \<and>
      crashed s = Some (ReferenceError ''React'') \<and> phase s = Discarded \<and>
      subtree s = None"
    by (simp add: GoogleMap_init_def app_defs MapTree_settle_throws Let_def)
  have C: "subtree s = None \<and> maps (world s) = maps w0 \<and> markers (world s) = markers w0 \<and>
      calls (world s) = calls w0"
    if "run es (GoogleMap_init key w0) = Some s" for es s
    using inv_run [OF inv_init that] by (simp add: app_inv_def)
  from A B C show ?thesis
    by blast
qed

theorem center_update_detaches_marker_witness:
  "(\<exists>h1 w1 h2 w2.
      Marker_settle \<lparr>position = 0, map_p = Some 0, title = Some ''Your Current Location''\<rparr>
        Marker_init (world_init\<lparr>objs := \<lambda>r. \<lparr>lat = 40, lng = - 74\<rparr>\<rparr>) = (h1, w1) \<and>
      Marker_settle \<lparr>position = 1, map_p = Some 0, title = Some ''Your Current Location''\<rparr>
        h1 w1 = (h2, w2) \<and>
      marker_st h1 = Some 0 \<and> marker_st h2 = Some 0 \<and>
      marker_map (markers w1 ! 0) = Some 0 \<and> marker_map (markers w2 ! 0) = None \<and>
      markers w2 \<noteq> markers w1) \<and>
   (\<exists>s. run [Mount False, LoaderSuccess] (GoogleMap_init ''k'' world_init) = Some s \<and>
      crashed s = Some (ReferenceError ''React'') \<and> maps (world s) = [] \<and>
      markers (world s) = [])"
proof -
  let ?w = "world_init\<lparr>objs := \<lambda>r. \<lparr>lat = 40, lng = - 74\<rparr>\<rparr>"
  let ?p = "\<lparr>position = 0, map_p = Some 0, title = Some ''Your Current Location''\<rparr>"
  let ?p' = "\<lparr>position = 1, map_p = Some 0, title = Some ''Your Current Location''\<rparr>"
  note T = center_update_detaches_marker [of ?p 0 ?p' ?w "''k''" world_init]
  have h: "map_p ?p = Some 0 \<and> map_p ?p' = Some 0 \<and> title ?p' = title ?p \<and>
      position ?p' \<noteq> position ?p \<and> objs ?w (position ?p') = objs ?w (position ?p)"
    by simp
  have n: "length (markers ?w) = 0" "maps world_init = []" "markers world_init = []"
    by (simp_all add: world_init_def)
  from T h have A: "\<exists>h1 w1 h2 w2.
         Marker_settle ?p Marker_init ?w = (h1, w1) \<and> Marker_settle ?p' h1 w1 = (h2, w2) \<and>
         marker_st h1 = Some (length (markers ?w)) \<and> marker_st h2 = marker_st h1 \<and>
         length (markers w2) = length (markers w1) \<and>
         marker_position (markers w2 ! length (markers ?w)) =
           marker_position (markers w1 ! length (markers ?w)) \<and>
         marker_map (markers w1 ! length (markers ?w)) = Some 0 \<and>
         marker_map (markers w2 ! length (markers ?w)) = None \<and>
         markers w2 \<noteq> markers w1 \<and>
         calls w2 = calls w1 @
           [SetMap (length (markers ?w)) None,
            SetPosition (length (markers ?w)) (objs ?w (position ?p))]"
    by blast
  from T obtain s where r: "run [Mount False, LoaderSuccess] (GoogleMap_init ''k'' world_init) = Some s"
    and c: "crashed s = Some (ReferenceError ''React'')"
    by blast
  from T r have "maps (world s) = maps world_init \<and> markers (world s) = markers world_init"
    by blast
  with r c n have B: "\<exists>s. run [Mount False, LoaderSuccess] (GoogleMap_init ''k'' world_init) = Some s \<and>
      crashed s = Some (ReferenceError ''React'') \<and> maps (world s) = [] \<and>
      markers (world s) = []"
    by auto
  from A [unfolded n] B show ?thesis
    by (elim exE conjE, intro conjI exI) (assumption | simp)+
qed

text \<open>
  C6. Whatever happens after the mount, the position requests the widget has issued are the
  one request of the mount, with high accuracy, a timeout of 10000 ms and a maximum age of
  60000 ms, when the capability exists, and none when it does not.
\<close>

theorem single_geolocation_request:
  assumes "run (Mount avail # es) (GoogleMap_init key w) = Some s"
  shows "geo_requests (world s) =
           geo_requests w @
           (if avail
            then [\<lparr>enableHighAccuracy = True, timeout = 10000, maximumAge = 60000\<rparr>]
            else [])"
proof -
  from assms obtain s1 where 1: "step (Mount avail) (GoogleMap_init key w) = Some s1"
    and 2: "run es s1 = Some s"
    by (auto split: option.splits)
  from 1 have p: "phase s1 \<noteq> Initial"
    by (auto simp add: GoogleMap_effect_def setState_def rerender_phase split: if_splits)
  from 1 have "geo_requests (world s1) = geo_requests w @ (if avail then [geo_options] else [])"
    by (auto simp add: GoogleMap_effect_def setState_def rerender_geo_requests GoogleMap_init_def
        split: if_splits)
  with run_geo_requests [OF p 2] show ?thesis
    by (simp add: geo_options_def)
qed

theorem single_geolocation_request_witness:
  "\<exists>s. run [Mount True, GeoError ''Timeout expired'', LoaderFailure, Unmount]
          (GoogleMap_init ''k'' world_init) = Some s \<and>
       geo_requests (world s) =
         [\<lparr>enableHighAccuracy = True, timeout = 10000, maximumAge = 60000\<rparr>]"
proof -
  have "\<exists>s. run [Mount True, GeoError ''Timeout expired'', LoaderFailure, Unmount]
          (GoogleMap_init ''k'' world_init) = Some s"
    by (simp add: GoogleMap_init_def app_defs Let_def)
  then obtain s where r: "run (Mount True # [GeoError ''Timeout expired'', LoaderFailure, Unmount])
          (GoogleMap_init ''k'' world_init) = Some s"
    by blast
  from single_geolocation_request [OF r] have
    "geo_requests (world s) = [\<lparr>enableHighAccuracy = True, timeout = 10000, maximumAge = 60000\<rparr>]"
    by (simp add: world_init_def)
  with r show ?thesis by blast
qed

text \<open>
  C7. \<^verbatim>\<open>Home\<close> shows the "API Key Required" panel exactly when the configured key is absent
  or the empty string; mounting the page then leaves the world as it was, so no map or marker
  is constructed and the script loader is not started.
\<close>

theorem missing_api_key:
  "(Home env = ApiKeyRequired \<longleftrightarrow> env = None \<or> env = Some []) \<and>
   (env = None \<or> env = Some [] \<longrightarrow> Home_mount env avail w = Placeholder w)"
  by (auto simp add: Home_def Home_mount_def split: option.splits)

theorem missing_api_key_witness:
  "Home None = ApiKeyRequired \<and> Home (Some []) = ApiKeyRequired \<and>
   Home_mount None True world_init = Placeholder world_init \<and>
   Home_mount (Some []) True world_init = Placeholder world_init \<and>
   Home (Some ''key'') \<noteq> ApiKeyRequired"
  using missing_api_key [of None True world_init] missing_api_key [of "Some []" True world_init]
    missing_api_key [of "Some ''key''" True world_init]
  by simp

text \<open>
  C8. When a \<^verbatim>\<open>Marker\<close> that holds a marker in its state is unmounted, after any number of
  renders with any props, the teardown calls \<^verbatim>\<open>setMap(null)\<close> on that marker and leaves
  the maps as they are; the unmount of the widget changes no map either.
\<close>

theorem marker_detached_on_teardown:
  assumes "Marker_renders ps Marker_init w = (h, w1)" and "marker_st h = Some k"
  shows "k < length (markers w1) \<and>
         markers (Marker_unmount h w1) =
           (markers w1)[k := (markers w1 ! k)\<lparr>marker_map := None\<rparr>] \<and>
         marker_map (markers (Marker_unmount h w1) ! k) = None \<and>
         calls (Marker_unmount h w1) = calls w1 @ [SetMap k None] \<and>
         maps (Marker_unmount h w1) = maps w1 \<and>
         (\<forall>s s'. step Unmount s = Some s' \<longrightarrow>
            maps (world s') = maps (world s) \<and> subtree s' = None)"
proof -
  have "marker_ok Marker_init w"
    by (simp add: marker_ok_def Marker_init_def)
  from Marker_renders_ok [OF this assms(1)] assms(2)
  have c: "marker_cleanup h = Some k" and l: "k < length (markers w1)"
    by (simp_all add: marker_ok_def)
  have u: "maps (world s') = maps (world s) \<and> subtree s' = None"
    if "step Unmount s = Some s'" for s s'
    using that
    by (auto simp add: unmount_subtree_def marker_defs setMap_def
        split: if_splits option.splits)
  from c l u show ?thesis
    by (simp add: Marker_unmount_def Marker_cleanup_def setMap_def)
qed

theorem marker_detached_on_teardown_witness:
  "\<exists>h w1. Marker_renders
       [\<lparr>position = 0, map_p = Some 0, title = Some ''Default Location''\<rparr>,
        \<lparr>position = 1, map_p = Some 0, title = Some ''Default Location''\<rparr>]
       Marker_init world_init = (h, w1) \<and>
     marker_st h = Some 0 \<and>
     marker_map (markers (Marker_unmount h w1) ! 0) = None \<and>
     calls (Marker_unmount h w1) = calls w1 @ [SetMap 0 None] \<and>
     maps (Marker_unmount h w1) = maps w1"
proof -
  let ?ps = "[\<lparr>position = 0, map_p = Some 0, title = Some ''Default Location''\<rparr>,
        \<lparr>position = 1, map_p = Some 0, title = Some ''Default Location''\<rparr>]"
  obtain h w1 where r: "Marker_renders ?ps Marker_init world_init = (h, w1)"
    by (cases "Marker_renders ?ps Marker_init world_init")
  have "marker_st (fst (Marker_renders ?ps Marker_init world_init)) = Some 0"
    apply (simp add: Marker_mount world_init_def)
    apply (subst Marker_update [where k = 0 and m = 0 and r = 0
          and t = "Some ''Default Location''"])
         apply simp_all
    done
  with r have m: "marker_st h = Some 0"
    by simp
  from marker_detached_on_teardown [OF r m] r m show ?thesis
    by blast
qed



text \<open>
  C10. A \<^verbatim>\<open>Marker\<close> that is given a map and whose title is absent or the empty string
  creates its marker with the title "Your Location".
\<close>

theorem marker_title_default:
  assumes "title p = None \<or> title p = Some []" and "map_p p = Some m"
  shows "\<exists>h' w'. Marker_commit p Marker_init w = (h', w') \<and>
           marker_st h' = Some (length (markers w)) \<and>
           length (markers w') = Suc (length (markers w)) \<and>
           marker_title (markers w' ! length (markers w)) = ''Your Location'' \<and>
           calls w' = calls w @
             [NewMarker (length (markers w)) (objs w (position p)) m ''Your Location'']"
  using assms
  by (auto simp add: marker_defs api_defs Marker_init_def title_or_default_def Let_def)

theorem marker_title_default_witness:
  "\<exists>h' w'. Marker_commit \<lparr>position = 0, map_p = Some 0, title = Some []\<rparr> Marker_init
              world_init = (h', w') \<and>
     marker_st h' = Some 0 \<and>
     marker_title (markers w' ! 0) = ''Your Location''"
proof -
  have n: "length (markers world_init) = 0"
    by (simp add: world_init_def)
  have h: "title \<lparr>position = 0, map_p = Some 0, title = Some []\<rparr> = None \<or>
      title \<lparr>position = 0, map_p = Some 0, title = Some []\<rparr> = Some []"
    "map_p \<lparr>position = 0, map_p = Some 0, title = Some []\<rparr> = Some 0"
    by simp_all
  from marker_title_default [OF h, of world_init, unfolded n]
  show ?thesis
    by (elim exE conjE, intro exI conjI) assumption+
qed

end
